theory Spec2Isabelle
  imports Complex_Main "HOL-Library.Sublist"
begin

section \<open>JavaScript values used by the PDF editor\<close>

text \<open>
  The editor (\<^verbatim>\<open>src/growth-calculator/brain.js\<close>, the part headed
  "PDF Editor MVP") works on JSON objects produced by the canvas library. Numbers are
  modelled as \<^typ>\<open>real\<close>: the model covers finite arithmetic and leaves rounding,
  \<^verbatim>\<open>Infinity\<close> and \<^verbatim>\<open>NaN\<close> produced by arithmetic aside (a division by
  zero is excluded by hypothesis wherever a theorem depends on it). An attribute that
  may be absent (\<^verbatim>\<open>undefined\<close>) is an \<open>option\<close>. Strings are byte strings, a
  character outside ASCII being its UTF-8 bytes.
\<close>

datatype js_error = TypeError | LibraryError | Rejected

definition num_or :: "real option \<Rightarrow> real \<Rightarrow> real" where
  \<comment> \<open>\<^verbatim>\<open>x || d\<close> on a numeric attribute: \<^verbatim>\<open>undefined\<close> and \<^verbatim>\<open>0\<close> are falsy.\<close>
  "num_or a d = (case a of None \<Rightarrow> d | Some v \<Rightarrow> if v = 0 then d else v)"

definition str_or :: "string option \<Rightarrow> string \<Rightarrow> string" where
  \<comment> \<open>\<^verbatim>\<open>s || d\<close> on a string attribute: \<^verbatim>\<open>undefined\<close> and \<^verbatim>\<open>''\<close> are falsy.\<close>
  "str_or a d = (case a of None \<Rightarrow> d | Some s \<Rightarrow> if s = [] then d else s)"

text \<open>
  The white space that \<^verbatim>\<open>parseInt\<close> skips (the language's
  \<^verbatim>\<open>WhiteSpace\<close> and \<^verbatim>\<open>LineTerminator\<close>), by the bytes of its UTF-8 form.
\<close>

definition whiteSpace1 :: "nat \<Rightarrow> bool" where
  \<comment> \<open>TAB, LF, VT, FF, CR, SP.\<close>
  "whiteSpace1 a = (a = 0x09 \<or> a = 0x0A \<or> a = 0x0B \<or> a = 0x0C \<or> a = 0x0D \<or> a = 0x20)"

definition whiteSpace2 :: "nat \<Rightarrow> nat \<Rightarrow> bool" where
  \<comment> \<open>U+00A0.\<close>
  "whiteSpace2 a b = (a = 0xC2 \<and> b = 0xA0)"

definition whiteSpace3 :: "nat \<Rightarrow> nat \<Rightarrow> nat \<Rightarrow> bool" where
  \<comment> \<open>U+1680; U+2000 to U+200A, U+2028, U+2029, U+202F; U+205F; U+3000; U+FEFF.\<close>
  "whiteSpace3 a b c =
     ((a = 0xE1 \<and> b = 0x9A \<and> c = 0x80)
      \<or> (a = 0xE2 \<and> b = 0x80 \<and> ((0x80 \<le> c \<and> c \<le> 0x8A) \<or> c = 0xA8 \<or> c = 0xA9 \<or> c = 0xAF))
      \<or> (a = 0xE2 \<and> b = 0x81 \<and> c = 0x9F)
      \<or> (a = 0xE3 \<and> b = 0x80 \<and> c = 0x80)
      \<or> (a = 0xEF \<and> b = 0xBB \<and> c = 0xBF))"

fun skipWhiteSpace :: "string \<Rightarrow> string" where
  "skipWhiteSpace (a # b # c # cs) =
     (if whiteSpace1 (of_char a) then skipWhiteSpace (b # c # cs)
      else if whiteSpace2 (of_char a) (of_char b) then skipWhiteSpace (c # cs)
      else if whiteSpace3 (of_char a) (of_char b) (of_char c) then skipWhiteSpace cs
      else a # b # c # cs)"
| "skipWhiteSpace [a, b] =
     (if whiteSpace1 (of_char a) then skipWhiteSpace [b]
      else if whiteSpace2 (of_char a) (of_char b) then []
      else [a, b])"
| "skipWhiteSpace [a] = (if whiteSpace1 (of_char a) then [] else [a])"
| "skipWhiteSpace [] = []"

definition digitValue :: "char \<Rightarrow> nat option" where
  "digitValue c =
     (let n = (of_char c :: nat) in
      if 48 \<le> n \<and> n \<le> 57 then Some (n - 48)
      else if 97 \<le> n \<and> n \<le> 122 then Some (n - 87)
      else if 65 \<le> n \<and> n \<le> 90 then Some (n - 55)
      else None)"

fun digitsPrefix :: "nat \<Rightarrow> string \<Rightarrow> nat list" where
  "digitsPrefix R [] = []"
| "digitsPrefix R (c # cs) =
     (case digitValue c of
        None \<Rightarrow> []
      | Some d \<Rightarrow> if d < R then d # digitsPrefix R cs else [])"

definition digitsValue :: "nat \<Rightarrow> nat list \<Rightarrow> nat" where
  "digitsValue R ds = foldl (\<lambda>acc d. acc * R + d) 0 ds"

definition parseInt :: "string \<Rightarrow> nat option \<Rightarrow> int option" where
  \<comment> \<open>The built-in \<^verbatim>\<open>parseInt(string, radix)\<close>; \<open>None\<close> is \<^verbatim>\<open>NaN\<close>, a radix
      \<open>None\<close> is an omitted radix. The value is exact (no rounding above \<open>2^53\<close>).\<close>
  "parseInt str radix =
     (let S = skipWhiteSpace str;
          sign = (if take 1 S = ''-'' then - 1 else 1 :: int);
          S1 = (if take 1 S = ''+'' \<or> take 1 S = ''-'' then drop 1 S else S);
          R0 = (case radix of None \<Rightarrow> 0 | Some r \<Rightarrow> r)
      in if R0 \<noteq> 0 \<and> (R0 < 2 \<or> 36 < R0) then None
         else
           let stripPrefix = (R0 = 0 \<or> R0 = 16);
               hasPrefix = (stripPrefix \<and> (take 2 S1 = ''0x'' \<or> take 2 S1 = ''0X''));
               S2 = (if hasPrefix then drop 2 S1 else S1);
               R = (if hasPrefix then 16 else if R0 = 0 then 10 else R0);
               Z = digitsPrefix R S2
           in if Z = [] then None else Some (sign * int (digitsValue R Z)))"

section \<open>Annotation objects, pages and drawing primitives\<close>

text \<open>
  One object of a canvas snapshot (\<^verbatim>\<open>pageAnnotations.objects[i]\<close>), with the
  attributes that \<^verbatim>\<open>savePDF\<close>, \<^verbatim>\<open>drawTextObject\<close> and
  \<^verbatim>\<open>drawImageObject\<close> read.
\<close>

record fobj =
  o_type :: string
  o_text :: "string option"
  o_fontSize :: "real option"
  o_fill :: "string option"
  o_left :: "real option"
  o_top :: "real option"
  o_width :: "real option"
  o_height :: "real option"
  o_scaleX :: "real option"
  o_scaleY :: "real option"
  o_src :: "string option"

record snapshot =
  objects :: "fobj list option"

datatype rgb = RGB (red: "real option") (green: "real option") (blue: "real option")

record pdf_image =
  img_width :: real
  img_height :: real

datatype text_args =
  TextArgs (t_text: string) (t_x: real) (t_y: real) (t_size: real) (t_color: rgb)

datatype image_args =
  ImageArgs (i_image: pdf_image) (i_x: real) (i_y: real) (i_width: real) (i_height: real)

datatype draw_op = DrawText text_args | DrawImage image_args

datatype log_entry =
    TextDrawn real real
  | ImageDrawn real real
  | ErrorDrawingImage
  | ErrorProcessingObject string

record pdf_page =
  pageWidth :: real
  pageHeight :: real
  content :: "draw_op list"

text \<open>
  The external collaborators. \<open>getViewportHeight n\<close> is
  \<^verbatim>\<open>(await AppState.pdfDoc.getPage(n)).getViewport({scale: AppState.renderScale}).height\<close>
  (\<open>None\<close>: the promise rejects); \<open>fetch\<close>, \<open>embedPng\<close> and \<open>embedJpg\<close> return
  \<open>None\<close> when they reject; \<open>drawText\<close> and \<open>drawImage\<close> tell whether the
  drawing primitive of the document library (for text together with
  \<^verbatim>\<open>PDFLib.rgb\<close>) accepts its arguments or throws.
\<close>

record env =
  getViewportHeight :: "int \<Rightarrow> real option"
  fetch :: "string \<Rightarrow> nat list option"
  embedPng :: "nat list \<Rightarrow> pdf_image option"
  embedJpg :: "nat list \<Rightarrow> pdf_image option"
  drawText :: "text_args \<Rightarrow> bool"
  drawImage :: "image_args \<Rightarrow> bool"

section \<open>Coordinate transform\<close>

definition hexToRgb :: "string \<Rightarrow> rgb" where
  "hexToRgb hex0 =
     (let hex = remove1 (CHR ''#'') hex0;
          comp = (\<lambda>s. map_option (\<lambda>v. real_of_int v / 255) (parseInt s (Some 16)))
      in RGB (comp (take 2 hex)) (comp (take 2 (drop 2 hex))) (comp (take 2 (drop 4 hex))))"

definition textArgs :: "string \<Rightarrow> fobj \<Rightarrow> real \<Rightarrow> real \<Rightarrow> text_args" where
  \<comment> \<open>The body of \<^verbatim>\<open>drawTextObject\<close> between its guard and the call of
      \<^verbatim>\<open>page.drawText\<close>: the arguments that call receives.\<close>
  "textArgs text textObj viewportHeight pageHeight' =
     (let fontSize = num_or (o_fontSize textObj) 18;
          color = hexToRgb (str_or (o_fill textObj) ''#000000'');
          fabricLeft = num_or (o_left textObj) 0;
          fabricTop = num_or (o_top textObj) 0;
          textHeight = num_or (o_height textObj) fontSize;
          scale = pageHeight' / viewportHeight;
          pdfX = fabricLeft * scale;
          pdfY = pageHeight' - (fabricTop + textHeight) * scale
      in TextArgs text pdfX pdfY (fontSize * scale) color)"

definition imageArgs :: "pdf_image \<Rightarrow> fobj \<Rightarrow> real \<Rightarrow> real \<Rightarrow> image_args" where
  \<comment> \<open>The body of \<^verbatim>\<open>drawImageObject\<close> between the embedding and the call of
      \<^verbatim>\<open>page.drawImage\<close>.\<close>
  "imageArgs img imageObj viewportHeight pageHeight' =
     (let imgWidth = num_or (o_width imageObj) (img_width img) * num_or (o_scaleX imageObj) 1;
          imgHeight = num_or (o_height imageObj) (img_height img) * num_or (o_scaleY imageObj) 1;
          fabricLeft = num_or (o_left imageObj) 0;
          fabricTop = num_or (o_top imageObj) 0;
          scale = pageHeight' / viewportHeight;
          pdfX = fabricLeft * scale;
          pdfY = pageHeight' - (fabricTop + imgHeight) * scale
      in ImageArgs img pdfX pdfY (imgWidth * scale) (imgHeight * scale))"

definition drawTextObject ::
  "env \<Rightarrow> pdf_page \<Rightarrow> fobj \<Rightarrow> real \<Rightarrow> real \<Rightarrow> log_entry list
     \<Rightarrow> js_error + pdf_page \<times> log_entry list" where
  "drawTextObject e page textObj viewportHeight pageHeight' lg =
     (case o_text textObj of
        None \<Rightarrow> Inr (page, lg)
      | Some text \<Rightarrow>
          if text = [] then Inr (page, lg)
          else
            let args = textArgs text textObj viewportHeight pageHeight' in
            if drawText e args
            then Inr (page\<lparr>content := content page @ [DrawText args]\<rparr>,
                      lg @ [TextDrawn (t_x args) (t_y args)])
            else Inl LibraryError)"

definition embedImage :: "env \<Rightarrow> string \<Rightarrow> pdf_image option" where
  \<comment> \<open>Fetching the data URI and embedding it, PNG or JPEG by the marker in the URI.\<close>
  "embedImage e src =
     (case fetch e src of
        None \<Rightarrow> None
      | Some imageBytes \<Rightarrow>
          if sublist ''image/png'' src then embedPng e imageBytes else embedJpg e imageBytes)"

definition drawImageObject ::
  "env \<Rightarrow> pdf_page \<Rightarrow> fobj \<Rightarrow> real \<Rightarrow> real \<Rightarrow> log_entry list \<Rightarrow> pdf_page \<times> log_entry list" where
  \<comment> \<open>Everything after the guard sits in a \<^verbatim>\<open>try\<close> whose \<^verbatim>\<open>catch\<close> logs:
      the function never throws.\<close>
  "drawImageObject e page imageObj viewportHeight pageHeight' lg =
     (case o_src imageObj of
        None \<Rightarrow> (page, lg)
      | Some src \<Rightarrow>
          if src = [] then (page, lg)
          else
            (case embedImage e src of
               None \<Rightarrow> (page, lg @ [ErrorDrawingImage])
             | Some img \<Rightarrow>
                 let args = imageArgs img imageObj viewportHeight pageHeight' in
                 if drawImage e args
                 then (page\<lparr>content := content page @ [DrawImage args]\<rparr>,
                       lg @ [ImageDrawn (i_x args) (i_y args)])
                 else (page, lg @ [ErrorDrawingImage])))"

section \<open>Flattening pipeline\<close>

text \<open>
  The two nested loops of \<^verbatim>\<open>savePDF\<close>. The store is given as the list
  \<^verbatim>\<open>Object.entries(AppState.annotations)\<close> in iteration order; the output document
  is the list \<^verbatim>\<open>pdfDoc.getPages()\<close>, each page with what has been drawn on it, in
  drawing order (later operations paint over earlier ones).
\<close>

definition processObject ::
  "env \<Rightarrow> string \<Rightarrow> real \<Rightarrow> real \<Rightarrow> pdf_page \<times> log_entry list \<Rightarrow> fobj
     \<Rightarrow> pdf_page \<times> log_entry list" where
  \<comment> \<open>One iteration of the inner loop: the \<^verbatim>\<open>try\<close> block and its \<^verbatim>\<open>catch\<close>.\<close>
  "processObject e pageNum viewportHeight pageHeight' st obj =
     (case st of (page, lg) \<Rightarrow>
        if o_type obj = ''textbox'' \<or> o_type obj = ''text'' then
          (case drawTextObject e page obj viewportHeight pageHeight' lg of
             Inl error \<Rightarrow> (page, lg @ [ErrorProcessingObject pageNum])
           | Inr st' \<Rightarrow> st')
        else if o_type obj = ''image'' then
          drawImageObject e page obj viewportHeight pageHeight' lg
        else (page, lg))"

fun savePDF_objects ::
  "env \<Rightarrow> string \<Rightarrow> real \<Rightarrow> real \<Rightarrow> fobj list \<Rightarrow> pdf_page \<times> log_entry list
     \<Rightarrow> pdf_page \<times> log_entry list" where
  "savePDF_objects e pageNum viewportHeight pageHeight' [] st = st"
| "savePDF_objects e pageNum viewportHeight pageHeight' (obj # objs) st =
     savePDF_objects e pageNum viewportHeight pageHeight' objs
       (processObject e pageNum viewportHeight pageHeight' st obj)"

fun savePDF_pages ::
  "env \<Rightarrow> (string \<times> snapshot) list \<Rightarrow> pdf_page list \<times> log_entry list
     \<Rightarrow> js_error + pdf_page list \<times> log_entry list" where
  "savePDF_pages e [] st = Inr st"
| "savePDF_pages e ((pageNum, pageAnnotations) # rest) (pages, lg) =
     (case parseInt pageNum None of
        None \<Rightarrow> Inl TypeError
          \<comment> \<open>\<^verbatim>\<open>pageIndex\<close> is \<^verbatim>\<open>NaN\<close>: both comparisons are false,
              \<^verbatim>\<open>pages[NaN]\<close> is \<^verbatim>\<open>undefined\<close> and \<^verbatim>\<open>page.getSize()\<close> throws
              outside the per-object \<^verbatim>\<open>try\<close>.\<close>
      | Some n \<Rightarrow>
          let pageIndex = n - 1 in
          if pageIndex < 0 \<or> int (length pages) \<le> pageIndex
          then savePDF_pages e rest (pages, lg)
          else
            let page = pages ! nat pageIndex in
            (case getViewportHeight e n of
               None \<Rightarrow> Inl Rejected
             | Some viewportHeight \<Rightarrow>
                 (case objects pageAnnotations of
                    None \<Rightarrow> savePDF_pages e rest (pages, lg)
                  | Some objs \<Rightarrow>
                      (case savePDF_objects e pageNum viewportHeight (pageHeight page) objs
                              (page, lg) of
                         (page', lg') \<Rightarrow>
                           savePDF_pages e rest (pages[nat pageIndex := page'], lg')))))"

section \<open>Application state, undo/redo engine and annotation store\<close>

text \<open>
  The fields of \<^verbatim>\<open>AppState\<close> that the engine and the store use. The canvas is
  identified with its serialised content (\<^verbatim>\<open>fabricCanvas.toJSON()\<close>), \<open>None\<close>
  being \<^verbatim>\<open>null\<close>. An absent stack (\<^verbatim>\<open>undefined\<close>) is \<open>None\<close>; the top of a
  stack is the last element. \<open>localStorage\<close> is the mapping kept under the key
  \<^verbatim>\<open>pdfEditorAnnotations\<close>.
\<close>

record app_state =
  currentPage :: int
  fabricCanvas :: "snapshot option"
  annotations :: "int \<rightharpoonup> snapshot"
  undoStack :: "int \<rightharpoonup> snapshot list"
  redoStack :: "int \<rightharpoonup> snapshot list"
  localStorage :: "(int \<rightharpoonup> snapshot) option"
  warnings :: "js_error list"

definition initStack :: "(int \<rightharpoonup> 'a list) \<Rightarrow> int \<Rightarrow> (int \<rightharpoonup> 'a list)" where
  \<comment> \<open>\<^verbatim>\<open>if (!stack[pageKey]) stack[pageKey] = []\<close>; an array, even empty, is truthy.\<close>
  "initStack m pageKey = (case m pageKey of None \<Rightarrow> m(pageKey \<mapsto> []) | Some xs \<Rightarrow> m)"

definition stackOf :: "(int \<rightharpoonup> 'a list) \<Rightarrow> int \<Rightarrow> 'a list" where
  "stackOf m pageKey = (case m pageKey of None \<Rightarrow> [] | Some xs \<Rightarrow> xs)"

definition saveUndoState :: "app_state \<Rightarrow> js_error option \<times> app_state" where
  \<comment> \<open>An event handler: the result is what it threw, if anything, and the state it left.\<close>
  "saveUndoState s =
     (let pageKey = currentPage s;
          s1 = s\<lparr>undoStack := initStack (undoStack s) pageKey\<rparr>;
          s2 = s1\<lparr>redoStack := initStack (redoStack s1) pageKey\<rparr>
      in case fabricCanvas s2 of
           None \<Rightarrow> (Some TypeError, s2)
         | Some state \<Rightarrow>
             let pushed = stackOf (undoStack s2) pageKey @ [state];
                 limited = (if 50 < length pushed then tl pushed else pushed)
             in (None, s2\<lparr>undoStack := (undoStack s2)(pageKey \<mapsto> limited),
                           redoStack := (redoStack s2)(pageKey \<mapsto> [])\<rparr>))"

text \<open>
  \<^verbatim>\<open>initializeFabricCanvas\<close> registers \<^verbatim>\<open>saveUndoState\<close> for
  \<^verbatim>\<open>object:added\<close>, \<^verbatim>\<open>object:modified\<close> and \<^verbatim>\<open>object:removed\<close>, so the
  handler also runs for every such event that the canvas library fires while it
  executes \<^verbatim>\<open>loadFromJSON\<close>. The library is not part of the repository:
  \<open>fires cur json\<close> stands for it and lists the canvas contents at the moments at
  which it fires one of these events while loading \<open>json\<close> into a canvas that shows
  \<open>cur\<close>. When it has finished the canvas shows \<open>json\<close>.
\<close>

type_synonym load_events = "snapshot \<Rightarrow> snapshot \<Rightarrow> snapshot list"

definition fireEvents :: "snapshot list \<Rightarrow> app_state \<Rightarrow> app_state" where
  \<comment> \<open>The handler runs once for each event, the canvas showing the contents given.\<close>
  "fireEvents cs s = foldl (\<lambda>s' c. snd (saveUndoState (s'\<lparr>fabricCanvas := Some c\<rparr>))) s cs"

definition loadFromJSON :: "load_events \<Rightarrow> snapshot \<Rightarrow> snapshot \<Rightarrow> app_state \<Rightarrow> app_state" where
  "loadFromJSON fires cur json s = (fireEvents (fires cur json) s)\<lparr>fabricCanvas := Some json\<rparr>"

definition undo :: "load_events \<Rightarrow> app_state \<Rightarrow> js_error option \<times> app_state" where
  "undo fires s =
     (let pageKey = currentPage s in
      case undoStack s pageKey of
        None \<Rightarrow> (None, s)
      | Some us \<Rightarrow>
          if us = [] then (None, s)
          else
            let s1 = s\<lparr>redoStack := initStack (redoStack s) pageKey\<rparr> in
            (case fabricCanvas s1 of
               None \<Rightarrow> (Some TypeError, s1)
             | Some cur \<Rightarrow>
                 let s2 = s1\<lparr>redoStack :=
                            (redoStack s1)(pageKey \<mapsto> stackOf (redoStack s1) pageKey @ [cur])\<rparr>;
                     previousState = last us;
                     s3 = s2\<lparr>undoStack := (undoStack s2)(pageKey \<mapsto> butlast us)\<rparr>
                 in (None, loadFromJSON fires cur previousState s3)))"

definition redo :: "load_events \<Rightarrow> app_state \<Rightarrow> js_error option \<times> app_state" where
  "redo fires s =
     (let pageKey = currentPage s in
      case redoStack s pageKey of
        None \<Rightarrow> (None, s)
      | Some rs \<Rightarrow>
          if rs = [] then (None, s)
          else
            (case undoStack s pageKey of
               None \<Rightarrow> (Some TypeError, s)
             | Some us \<Rightarrow>
                 (case fabricCanvas s of
                    None \<Rightarrow> (Some TypeError, s)
                  | Some cur \<Rightarrow>
                      let s1 = s\<lparr>undoStack := (undoStack s)(pageKey \<mapsto> us @ [cur])\<rparr>;
                          redoState = last rs;
                          s2 = s1\<lparr>redoStack := (redoStack s1)(pageKey \<mapsto> butlast rs)\<rparr>
                      in (None, loadFromJSON fires cur redoState s2))))"

text \<open>
  What the user and the canvas library can do to the engine. \<open>ObjectEvent c\<close>: the
  library has changed the canvas content to \<open>c\<close> and fires \<^verbatim>\<open>object:added\<close>,
  \<^verbatim>\<open>object:modified\<close> or \<^verbatim>\<open>object:removed\<close>, whose handler is
  \<^verbatim>\<open>saveUndoState\<close>; this is an edit by the user, or an event that the library
  fires while a page's annotations are restored. \<open>PageShown p c\<close> stands for
  navigation (\<^verbatim>\<open>previousPage\<close>, \<^verbatim>\<open>nextPage\<close>, \<^verbatim>\<open>renderCurrentPage\<close>),
  reduced to what the engine can see of it: another current page and a fresh canvas;
  none of these functions assigns a stack.
\<close>

datatype event = ObjectEvent snapshot | UndoClick | RedoClick | PageShown int snapshot

fun step :: "load_events \<Rightarrow> app_state \<Rightarrow> event \<Rightarrow> app_state" where
  "step fires s (ObjectEvent c) = snd (saveUndoState (s\<lparr>fabricCanvas := Some c\<rparr>))"
| "step fires s UndoClick = snd (undo fires s)"
| "step fires s RedoClick = snd (redo fires s)"
| "step fires s (PageShown p c) = s\<lparr>currentPage := p, fabricCanvas := Some c\<rparr>"

definition run :: "load_events \<Rightarrow> event list \<Rightarrow> app_state \<Rightarrow> app_state" where
  "run fires es s = foldl (step fires) s es"

definition initialState :: app_state where
  \<comment> \<open>The state \<^verbatim>\<open>handleFile\<close> leaves when a document has been loaded.\<close>
  "initialState =
     \<lparr>currentPage = 1, fabricCanvas = None, annotations = Map.empty, undoStack = Map.empty,
      redoStack = Map.empty, localStorage = None, warnings = []\<rparr>"

definition localStorage_setItem ::
  "((int \<rightharpoonup> snapshot) \<Rightarrow> bool) \<Rightarrow> (int \<rightharpoonup> snapshot) \<Rightarrow> app_state \<Rightarrow> js_error + app_state" where
  \<comment> \<open>\<^verbatim>\<open>localStorage.setItem('pdfEditorAnnotations', JSON.stringify(store))\<close>;
      \<open>accepts\<close> tells whether durable storage takes the value or throws.\<close>
  "localStorage_setItem accepts store s =
     (if accepts store then Inr (s\<lparr>localStorage := Some store\<rparr>) else Inl LibraryError)"

definition saveCurrentPageAnnotations ::
  "((int \<rightharpoonup> snapshot) \<Rightarrow> bool) \<Rightarrow> app_state \<Rightarrow> js_error option \<times> app_state" where
  "saveCurrentPageAnnotations accepts s =
     (case fabricCanvas s of
        None \<Rightarrow> (None, s)
      | Some json \<Rightarrow>
          let s1 = s\<lparr>annotations := (annotations s)(currentPage s \<mapsto> json)\<rparr> in
          (case localStorage_setItem accepts (annotations s1) s1 of
             Inr s2 \<Rightarrow> (None, s2)
           | Inl e \<Rightarrow> (None, s1\<lparr>warnings := warnings s1 @ [e]\<rparr>)))"

section \<open>What the store contributes to a page\<close>

text \<open>
  The flattening claims are stated against the following description of the result:
  each object contributes at most one drawing operation, a snapshot contributes its
  objects' operations in snapshot order, and a page receives the contributions of the
  snapshots stored under its number, in store order.
\<close>

definition spec_objectOps :: "env \<Rightarrow> real \<Rightarrow> real \<Rightarrow> fobj \<Rightarrow> draw_op list" where
  \<comment> \<open>What one object contributes to its page: its drawing operation when it is a text
      that the text primitive accepts, or an image whose data can be fetched, embedded
      (as PNG when the data URI says so, as JPEG otherwise) and drawn; nothing when it
      is skipped or when any of these steps fails.\<close>
  "spec_objectOps e vh ph obj =
     (if o_type obj = ''textbox'' \<or> o_type obj = ''text'' then
        (case o_text obj of
           None \<Rightarrow> []
         | Some text \<Rightarrow>
             if text = [] then []
             else if drawText e (textArgs text obj vh ph)
             then [DrawText (textArgs text obj vh ph)] else [])
      else if o_type obj = ''image'' then
        (case o_src obj of
           None \<Rightarrow> []
         | Some src \<Rightarrow>
             if src = [] then []
             else
               (case fetch e src of
                  None \<Rightarrow> []
                | Some bytes \<Rightarrow>
                    (case (if sublist ''image/png'' src then embedPng e bytes
                           else embedJpg e bytes) of
                       None \<Rightarrow> []
                     | Some img \<Rightarrow>
                         if drawImage e (imageArgs img obj vh ph)
                         then [DrawImage (imageArgs img obj vh ph)] else [])))
      else [])"

definition spec_snapshotOps :: "env \<Rightarrow> real \<Rightarrow> real \<Rightarrow> snapshot \<Rightarrow> draw_op list" where
  \<comment> \<open>The contributions of a snapshot's objects, in snapshot order.\<close>
  "spec_snapshotOps e vh ph snap =
     (case objects snap of
        None \<Rightarrow> []
      | Some objs \<Rightarrow> concat (map (spec_objectOps e vh ph) objs))"

definition spec_pageOps ::
  "env \<Rightarrow> real \<Rightarrow> real \<Rightarrow> int \<Rightarrow> (string \<times> snapshot) list \<Rightarrow> draw_op list" where
  \<comment> \<open>What the store contributes to page \<open>n\<close>: the snapshots stored under a key that
      reads \<open>n\<close>, in store order.\<close>
  "spec_pageOps e vh ph n entries =
     concat (map (\<lambda>(pageNum, snap).
                    if parseInt pageNum None = Some n then spec_snapshotOps e vh ph snap else [])
                 entries)"

definition spec_drawable :: "fobj \<Rightarrow> bool" where
  \<comment> \<open>A text object with a non-empty text, or an image object with a non-empty source.\<close>
  "spec_drawable obj =
     (if o_type obj = ''textbox'' \<or> o_type obj = ''text''
      then (case o_text obj of None \<Rightarrow> False | Some text \<Rightarrow> text \<noteq> [])
      else if o_type obj = ''image''
      then (case o_src obj of None \<Rightarrow> False | Some src \<Rightarrow> src \<noteq> [])
      else False)"

definition dropIgnored :: "snapshot \<Rightarrow> snapshot" where
  "dropIgnored snap = snap\<lparr>objects := map_option (filter spec_drawable) (objects snap)\<rparr>"

section \<open>Example data\<close>

definition blankObj :: "string \<Rightarrow> fobj" where
  \<comment> \<open>An object that carries its type and no other attribute.\<close>
  "blankObj ty =
     \<lparr>o_type = ty, o_text = None, o_fontSize = None, o_fill = None, o_left = None,
      o_top = None, o_width = None, o_height = None, o_scaleX = None, o_scaleY = None,
      o_src = None\<rparr>"

definition letterText :: fobj where
  \<comment> \<open>The example of the source's closing comment: an object at \<open>left = 100\<close>,
      \<open>top = 50\<close>, \<open>height = 30\<close>, edited on a 1188 pixel canvas for a 792 point page.\<close>
  "letterText =
     (blankObj ''textbox'')\<lparr>o_text := Some ''Hi'', o_left := Some 100, o_top := Some 50,
                            o_height := Some 30\<rparr>"

definition halfScaledImage :: fobj where
  \<comment> \<open>An image as \<^verbatim>\<open>handleImageSelect\<close> leaves it after \<^verbatim>\<open>img.scale(0.5)\<close>.\<close>
  "halfScaledImage =
     (blankObj ''image'')\<lparr>o_src := Some ''data:image/png;base64,AAAA'', o_left := Some 100,
                          o_top := Some 50, o_width := Some 400, o_height := Some 200,
                          o_scaleX := Some (1 / 2), o_scaleY := Some (1 / 2)\<rparr>"

definition flatText :: fobj where
  \<comment> \<open>A text object whose height attribute is zero.\<close>
  "flatText =
     (blankObj ''textbox'')\<lparr>o_text := Some ''Hi'', o_left := Some 100, o_top := Some 50,
                            o_height := Some 0\<rparr>"

definition png400x200 :: pdf_image where
  "png400x200 = \<lparr>img_width = 400, img_height = 200\<rparr>"

definition letterPage :: pdf_page where
  "letterPage = \<lparr>pageWidth = 612, pageHeight = 792, content = []\<rparr>"

definition acceptingEnv :: env where
  \<comment> \<open>Every page renders at 1188 pixels high and every library call succeeds.\<close>
  "acceptingEnv =
     \<lparr>getViewportHeight = (\<lambda>n. Some 1188), fetch = (\<lambda>src. Some []),
      embedPng = (\<lambda>bytes. Some png400x200), embedJpg = (\<lambda>bytes. Some png400x200),
      drawText = (\<lambda>args. True), drawImage = (\<lambda>args. True)\<rparr>"

definition jpg640x480 :: pdf_image where
  "jpg640x480 = \<lparr>img_width = 640, img_height = 480\<rparr>"

definition scaledText :: fobj where
  \<comment> \<open>The text box of the example after it has been stretched to twice its size by a
      corner handle: the attributes \<open>height\<close> and \<open>fontSize\<close> stay, the scale factors
      become 2, and the box is 60 pixels high on the canvas.\<close>
  "scaledText = letterText\<lparr>o_scaleX := Some 2, o_scaleY := Some 2\<rparr>"

definition scaledImage :: fobj where
  \<comment> \<open>An image with the geometry of \<open>scaledText\<close>.\<close>
  "scaledImage =
     (blankObj ''image'')\<lparr>o_src := Some ''data:image/png;base64,AAAA'', o_left := Some 100,
                          o_top := Some 50, o_width := Some 40, o_height := Some 30,
                          o_scaleX := Some 2, o_scaleY := Some 2\<rparr>"

definition redText :: fobj where
  \<comment> \<open>A text box as the canvas library serialises it, but for the font size.\<close>
  "redText =
     (blankObj ''textbox'')\<lparr>o_text := Some ''Hi'', o_fill := Some ''#ff0000'',
                            o_left := Some 100, o_top := Some 50, o_width := Some 200,
                            o_height := Some 30, o_scaleX := Some 1, o_scaleY := Some 1\<rparr>"

definition bigText :: fobj where
  \<comment> \<open>A text box that lacks the fill colour only.\<close>
  "bigText =
     (blankObj ''textbox'')\<lparr>o_text := Some ''Hi'', o_fontSize := Some 24,
                            o_left := Some 100, o_top := Some 50, o_width := Some 200,
                            o_height := Some 30, o_scaleX := Some 1, o_scaleY := Some 1\<rparr>"

definition tallImage :: fobj where
  \<comment> \<open>An image that lacks \<open>scaleX\<close> only.\<close>
  "tallImage = halfScaledImage\<lparr>o_scaleX := None\<rparr>"

definition wideImage :: fobj where
  \<comment> \<open>An image that lacks \<open>scaleY\<close> only.\<close>
  "wideImage = halfScaledImage\<lparr>o_scaleY := None\<rparr>"

definition badText :: fobj where
  \<comment> \<open>A text that \<open>pickyEnv\<close> below refuses to draw.\<close>
  "badText =
     (blankObj ''textbox'')\<lparr>o_text := Some ''bad'', o_left := Some 10, o_top := Some 10,
                            o_height := Some 30\<rparr>"

definition unreadableImage :: fobj where
  \<comment> \<open>An image whose data \<open>pickyEnv\<close> below cannot fetch.\<close>
  "unreadableImage =
     (blankObj ''image'')\<lparr>o_src := Some ''data:image/jpeg;base64,????'', o_left := Some 10,
                          o_top := Some 10, o_width := Some 640, o_height := Some 480\<rparr>"

definition pickyEnv :: env where
  \<comment> \<open>Every page renders at 1188 pixels high; one data URI can be fetched, PNG and JPEG
      data embed as different images, and the text primitive throws on one text.\<close>
  "pickyEnv =
     \<lparr>getViewportHeight = (\<lambda>n. Some 1188),
      fetch = (\<lambda>src. if src = ''data:image/png;base64,AAAA'' then Some [137, 80, 78, 71]
                      else None),
      embedPng = (\<lambda>bytes. Some png400x200), embedJpg = (\<lambda>bytes. Some jpg640x480),
      drawText = (\<lambda>args. t_text args \<noteq> ''bad''), drawImage = (\<lambda>args. True)\<rparr>"

definition pageOneSnap :: snapshot where
  "pageOneSnap = \<lparr>objects = Some [letterText, halfScaledImage, badText]\<rparr>"

definition pageTwoSnap :: snapshot where
  "pageTwoSnap = \<lparr>objects = Some [halfScaledImage, unreadableImage, flatText]\<rparr>"

definition snapA :: snapshot where
  "snapA = \<lparr>objects = Some []\<rparr>"

definition snapB :: snapshot where
  "snapB = \<lparr>objects = Some [letterText]\<rparr>"

definition snapC :: snapshot where
  "snapC = \<lparr>objects = Some [letterText, halfScaledImage]\<rparr>"

definition editedState :: app_state where
  \<comment> \<open>Page 1 shown empty, then two objects added one after the other.\<close>
  "editedState =
     \<lparr>currentPage = 1, fabricCanvas = Some snapC, annotations = Map.empty,
      undoStack = [1 \<mapsto> [snapB, snapC]], redoStack = [1 \<mapsto> []], localStorage = None,
      warnings = []\<rparr>"

definition undoneState :: app_state where
  \<comment> \<open>Page 1 shown empty, a text box added and deleted again, then one Undo.\<close>
  "undoneState =
     \<lparr>currentPage = 1, fabricCanvas = Some snapA, annotations = Map.empty,
      undoStack = [1 \<mapsto> [snapB]], redoStack = [1 \<mapsto> [snapA]], localStorage = None,
      warnings = []\<rparr>"

definition fullState :: app_state where
  \<comment> \<open>Page 1 with fifty entries on its undo stack.\<close>
  "fullState =
     initialState\<lparr>fabricCanvas := Some snapC,
                  undoStack := [1 \<mapsto> snapB # replicate 49 snapA],
                  redoStack := [1 \<mapsto> []]\<rparr>"

definition objectsOf :: "snapshot \<Rightarrow> fobj list" where
  "objectsOf snap = (case objects snap of None \<Rightarrow> [] | Some objs \<Rightarrow> objs)"

definition fabricEvents :: load_events where
  \<comment> \<open>The events of Fabric.js 5.3.0, the version the source names: the canvas is
      cleared object by object, \<^verbatim>\<open>object:removed\<close> being fired after each removal,
      and the loaded objects are inserted one by one, \<^verbatim>\<open>object:added\<close> being fired
      after each insertion.\<close>
  "fabricEvents cur json =
     map (\<lambda>i. \<lparr>objects = Some (drop i (objectsOf cur))\<rparr>) [1 ..< Suc (length (objectsOf cur))]
     @ map (\<lambda>j. \<lparr>objects = Some (take j (objectsOf json))\<rparr>)
         [1 ..< Suc (length (objectsOf json))]"

section \<open>Helper lemmas\<close>

lemma num_or_pos: "0 < v \<Longrightarrow> num_or (Some v) d = v"
  by (simp add: num_or_def)

lemma num_or_None: "num_or None d = d"
  by (simp add: num_or_def)


lemma hexToRgb_black: "hexToRgb ''#000000'' = RGB (Some 0) (Some 0) (Some 0)"
  by (simp add: hexToRgb_def parseInt_def whiteSpace1_def whiteSpace2_def digitValue_def
        digitsValue_def)

lemma parseInt_examples:
  "parseInt ''1'' None = Some 1" "parseInt ''2'' None = Some 2" "parseInt ''7'' None = Some 7"
  "parseInt ''0'' None = Some 0"
  by (simp_all add: parseInt_def whiteSpace1_def digitValue_def digitsValue_def)

text \<open>
  A key with a no-break space in front still reads as a number.
\<close>

lemma parseInt_skips_nbsp: "parseInt [CHR 0xC2, CHR 0xA0, CHR ''2''] None = Some 2"
  by (simp add: parseInt_def whiteSpace1_def whiteSpace2_def whiteSpace3_def digitValue_def
        digitsValue_def)

subsection \<open>The transform as the code has it\<close>

lemma text_transform:
  assumes "0 < l" and "0 < t" and "0 < h" and "0 < vh" and "0 < ph"
    and "o_left obj = Some l" and "o_top obj = Some t" and "o_height obj = Some h"
  shows "t_x (textArgs text obj vh ph) = l * (ph / vh)"
    and "t_y (textArgs text obj vh ph) = ph - (t + h) * (ph / vh)"
    and "t_size (textArgs text obj vh ph) = num_or (o_fontSize obj) 18 * (ph / vh)"
  using assms by (simp_all add: textArgs_def num_or_pos Let_def)

text \<open>
  The image path meets the formula of the transform with the height the object has on
  the canvas, \<open>height * scaleY\<close>.
\<close>

lemma image_transform:
  assumes "0 < l" and "0 < t" and "0 < h" and "0 < vh" and "0 < ph"
    and "o_left obj = Some l" and "o_top obj = Some t" and "o_height obj = Some h"
  shows "i_x (imageArgs img obj vh ph) = l * (ph / vh)"
    and "i_y (imageArgs img obj vh ph) = ph - (t + h * num_or (o_scaleY obj) 1) * (ph / vh)"
    and "i_width (imageArgs img obj vh ph)
           = num_or (o_width obj) (img_width img) * num_or (o_scaleX obj) 1 * (ph / vh)"
    and "i_height (imageArgs img obj vh ph) = h * num_or (o_scaleY obj) 1 * (ph / vh)"
  using assms by (simp_all add: imageArgs_def num_or_pos Let_def)

text \<open>
  The text path never reads the scale factors.
\<close>

lemma text_transform_ignores_scale:
  "textArgs text (obj\<lparr>o_scaleX := sx, o_scaleY := sy\<rparr>) vh ph = textArgs text obj vh ph"
  by (simp add: textArgs_def)

subsection \<open>The undo/redo engine\<close>

lemma editedState_reached:
  "run fires [PageShown 1 snapA, ObjectEvent snapB, ObjectEvent snapC] initialState = editedState"
  by (simp add: editedState_def run_def initialState_def saveUndoState_def initStack_def
        stackOf_def Let_def)

lemma undo_Some:
  assumes "undoStack s (currentPage s) = Some us" and "us \<noteq> []"
    and "fabricCanvas s = Some cur"
  shows "undo fires s =
           (None, loadFromJSON fires cur (last us)
                    (s\<lparr>redoStack := (redoStack s)(currentPage s \<mapsto>
                                       stackOf (redoStack s) (currentPage s) @ [cur]),
                       undoStack := (undoStack s)(currentPage s \<mapsto> butlast us)\<rparr>))"
  using assms
  by (simp add: undo_def initStack_def stackOf_def Let_def split: option.splits)

lemma redo_Some:
  assumes "redoStack s (currentPage s) = Some rs" and "rs \<noteq> []"
    and "undoStack s (currentPage s) = Some us" and "fabricCanvas s = Some cur"
  shows "redo fires s =
           (None, loadFromJSON fires cur (last rs)
                    (s\<lparr>undoStack := (undoStack s)(currentPage s \<mapsto> us @ [cur]),
                       redoStack := (redoStack s)(currentPage s \<mapsto> butlast rs)\<rparr>))"
  using assms
  by (simp add: redo_def Let_def)

lemma fireEvents_Nil: "fireEvents [] s = s"
  by (simp add: fireEvents_def)

lemma fireEvents_snoc:
  "fireEvents (cs @ [c]) s = snd (saveUndoState ((fireEvents cs s)\<lparr>fabricCanvas := Some c\<rparr>))"
  by (simp add: fireEvents_def)

lemma saveUndoState_currentPage: "currentPage (snd (saveUndoState s)) = currentPage s"
  by (simp add: saveUndoState_def Let_def split: option.splits)

lemma fireEvents_currentPage: "currentPage (fireEvents cs s) = currentPage s"
  by (induction cs rule: rev_induct)
     (simp_all add: fireEvents_Nil fireEvents_snoc saveUndoState_currentPage)

lemma fireEvents_redoStack:
  "cs \<noteq> [] \<Longrightarrow> redoStack (fireEvents cs s) (currentPage s) = Some []"
proof (cases cs rule: rev_cases)
  case Nil
  assume "cs \<noteq> []"
  with Nil show ?thesis by simp
next
  case (snoc cs' c)
  have "currentPage (fireEvents cs' s) = currentPage s"
    by (rule fireEvents_currentPage)
  then show ?thesis
    by (simp add: snoc fireEvents_snoc saveUndoState_def Let_def)
qed

lemma pop_push_length:
  "xs \<noteq> [] \<Longrightarrow> length xs - Suc 0 + n \<le> 49 \<longleftrightarrow> length xs + n \<le> 50"
  "xs \<noteq> [] \<Longrightarrow> n + (length xs - Suc 0) \<le> 49 \<longleftrightarrow> n + length xs \<le> 50"
  by (cases xs; simp)+

lemma event_sum:
  assumes "\<forall>p. length (stackOf (undoStack s) p) + length (stackOf (redoStack s) p) \<le> 50"
  shows "length (stackOf (undoStack (snd (saveUndoState (s\<lparr>fabricCanvas := Some c\<rparr>)))) p)
         + length (stackOf (redoStack (snd (saveUndoState (s\<lparr>fabricCanvas := Some c\<rparr>)))) p)
           \<le> 50"
proof -
  from assms have "length (stackOf (undoStack s) p) \<le> 50"
    by (metis add_leE)
  moreover from assms
  have "length (stackOf (undoStack s) p) + length (stackOf (redoStack s) p) \<le> 50"
    by simp
  ultimately show ?thesis
    by (auto simp add: saveUndoState_def initStack_def stackOf_def Let_def
          split: option.splits)
qed

lemma fireEvents_sum:
  assumes "\<forall>p. length (stackOf (undoStack s) p) + length (stackOf (redoStack s) p) \<le> 50"
  shows "length (stackOf (undoStack (fireEvents cs s)) p)
         + length (stackOf (redoStack (fireEvents cs s)) p) \<le> 50"
proof (induction cs arbitrary: p rule: rev_induct)
  case Nil
  show ?case
    using assms by (simp add: fireEvents_Nil)
next
  case (snoc c cs)
  then have "\<forall>q. length (stackOf (undoStack (fireEvents cs s)) q)
                + length (stackOf (redoStack (fireEvents cs s)) q) \<le> 50"
    by blast
  from event_sum [OF this] show ?case
    by (simp add: fireEvents_snoc)
qed

lemma loadFromJSON_sum:
  assumes "\<forall>p. length (stackOf (undoStack s) p) + length (stackOf (redoStack s) p) \<le> 50"
  shows "length (stackOf (undoStack (loadFromJSON fires cur json s)) p)
         + length (stackOf (redoStack (loadFromJSON fires cur json s)) p) \<le> 50"
  using fireEvents_sum [OF assms] by (simp add: loadFromJSON_def)

lemma undo_sum:
  assumes "\<forall>p. length (stackOf (undoStack s) p) + length (stackOf (redoStack s) p) \<le> 50"
  shows "length (stackOf (undoStack (snd (undo fires s))) p)
         + length (stackOf (redoStack (snd (undo fires s))) p) \<le> 50"
proof (cases "\<exists>us cur. undoStack s (currentPage s) = Some us \<and> us \<noteq> []
                \<and> fabricCanvas s = Some cur")
  case True
  then obtain us cur where
    h: "undoStack s (currentPage s) = Some us" "us \<noteq> []" "fabricCanvas s = Some cur"
    by blast
  let ?s3 = "s\<lparr>redoStack := (redoStack s)(currentPage s \<mapsto>
                               stackOf (redoStack s) (currentPage s) @ [cur]),
               undoStack := (undoStack s)(currentPage s \<mapsto> butlast us)\<rparr>"
  have "length (stackOf (undoStack ?s3) q) + length (stackOf (redoStack ?s3) q) \<le> 50" for q
  proof -
    from assms
    have "length (stackOf (undoStack s) q) + length (stackOf (redoStack s) q) \<le> 50"
      by simp
    then show ?thesis
      using h by (auto simp add: stackOf_def pop_push_length split: option.splits)
  qed
  then have "\<forall>q. length (stackOf (undoStack ?s3) q) + length (stackOf (redoStack ?s3) q) \<le> 50"
    by blast
  from loadFromJSON_sum [OF this] show ?thesis
    by (simp add: undo_Some [OF h])
next
  case False
  from assms
  have "length (stackOf (undoStack s) p) + length (stackOf (redoStack s) p) \<le> 50"
    by simp
  then show ?thesis
    using False
    by (auto simp add: undo_def initStack_def stackOf_def Let_def split: option.splits)
qed

lemma redo_sum:
  assumes "\<forall>p. length (stackOf (undoStack s) p) + length (stackOf (redoStack s) p) \<le> 50"
  shows "length (stackOf (undoStack (snd (redo fires s))) p)
         + length (stackOf (redoStack (snd (redo fires s))) p) \<le> 50"
proof (cases "\<exists>rs us cur. redoStack s (currentPage s) = Some rs \<and> rs \<noteq> []
                \<and> undoStack s (currentPage s) = Some us \<and> fabricCanvas s = Some cur")
  case True
  then obtain rs us cur where
    h: "redoStack s (currentPage s) = Some rs" "rs \<noteq> []"
      "undoStack s (currentPage s) = Some us" "fabricCanvas s = Some cur"
    by blast
  let ?s2 = "s\<lparr>undoStack := (undoStack s)(currentPage s \<mapsto> us @ [cur]),
               redoStack := (redoStack s)(currentPage s \<mapsto> butlast rs)\<rparr>"
  have "length (stackOf (undoStack ?s2) q) + length (stackOf (redoStack ?s2) q) \<le> 50" for q
  proof -
    from assms
    have "length (stackOf (undoStack s) q) + length (stackOf (redoStack s) q) \<le> 50"
      by simp
    then show ?thesis
      using h by (auto simp add: stackOf_def pop_push_length split: option.splits)
  qed
  then have "\<forall>q. length (stackOf (undoStack ?s2) q) + length (stackOf (redoStack ?s2) q) \<le> 50"
    by blast
  from loadFromJSON_sum [OF this] show ?thesis
    by (simp add: redo_Some [OF h])
next
  case False
  from assms
  have "length (stackOf (undoStack s) p) + length (stackOf (redoStack s) p) \<le> 50"
    by simp
  then show ?thesis
    using False
    by (auto simp add: redo_def stackOf_def Let_def split: option.splits)
qed

lemma stack_sum_step:
  assumes "\<forall>p. length (stackOf (undoStack s) p) + length (stackOf (redoStack s) p) \<le> 50"
  shows "length (stackOf (undoStack (step fires s ev)) p)
         + length (stackOf (redoStack (step fires s ev)) p) \<le> 50"
proof (cases ev)
  case (ObjectEvent c)
  then show ?thesis
    using event_sum [OF assms] by simp
next
  case UndoClick
  then show ?thesis
    using undo_sum [OF assms] by simp
next
  case RedoClick
  then show ?thesis
    using redo_sum [OF assms] by simp
next
  case (PageShown q c)
  with assms show ?thesis
    by simp
qed

lemma stack_sum_run:
  "\<forall>p. length (stackOf (undoStack s) p) + length (stackOf (redoStack s) p) \<le> 50 \<Longrightarrow>
   length (stackOf (undoStack (run fires es s)) p)
   + length (stackOf (redoStack (run fires es s)) p) \<le> 50"
proof (induction es arbitrary: s p)
  case Nil
  then show ?case by (simp add: run_def)
next
  case (Cons ev es)
  have "\<forall>q. length (stackOf (undoStack (step fires s ev)) q)
            + length (stackOf (redoStack (step fires s ev)) q) \<le> 50"
    using Cons.prems stack_sum_step by blast
  from Cons.IH [OF this] show ?case
    by (simp add: run_def)
qed

lemma stack_sum_initial:
  "length (stackOf (undoStack initialState) p) + length (stackOf (redoStack initialState) p) \<le> 50"
  by (simp add: initialState_def stackOf_def)

text \<open>
  Redo right after an object event does nothing: the event has emptied the redo stack.
\<close>

lemma redo_after_object_event:
  "redo fires (step fires s (ObjectEvent c)) = (None, step fires s (ObjectEvent c))"
  by (simp add: redo_def saveUndoState_def initStack_def Let_def)

text \<open>
  With a library that fires nothing while it loads the two snapshots, Undo followed by
  Redo does restore the canvas and the undo stack.
\<close>

lemma undo_then_redo_silent_load:
  assumes "undoStack s (currentPage s) = Some us" and "us \<noteq> []"
    and "fabricCanvas s = Some c"
    and "fires c (last us) = []" and "fires (last us) c = []"
  shows "fabricCanvas (snd (redo fires (snd (undo fires s)))) = Some c"
    and "undoStack (snd (redo fires (snd (undo fires s)))) = undoStack s"
  using assms
  by (auto simp add: undo_def redo_def loadFromJSON_def fireEvents_Nil initStack_def
        stackOf_def Let_def split: option.splits)

text \<open>
  The events of Fabric.js for the loads of the example: none when an empty canvas
  loads an empty snapshot, one when it loads the snapshot with one text box.
\<close>

lemma fabricEvents_examples:
  "fabricEvents snapA snapA = []" "fabricEvents snapA snapB = [snapB]"
  by (simp_all add: fabricEvents_def objectsOf_def snapA_def snapB_def)

text \<open>
  Add a text box, delete it, Undo: the editor is in \<open>undoneState\<close>. A second Undo
  followed by Redo leaves the text box on the canvas, which was empty before.
\<close>

lemma undoneState_reached:
  "run fabricEvents [PageShown 1 snapA, ObjectEvent snapB, ObjectEvent snapA, UndoClick]
     initialState = undoneState"
  by (simp add: undoneState_def run_def initialState_def saveUndoState_def undo_def
        loadFromJSON_def fireEvents_Nil fabricEvents_examples initStack_def stackOf_def Let_def)

lemma fabric_undo_redo_trace:
  "fabricCanvas (run fabricEvents [UndoClick, RedoClick] undoneState) = Some snapB"
  by (simp add: undoneState_def run_def saveUndoState_def undo_def redo_def loadFromJSON_def
        fireEvents_def fabricEvents_examples initStack_def stackOf_def Let_def)

subsection \<open>Flattening\<close>

lemma processObject_fst:
  "fst (processObject e k vh ph (page, lg) obj)
     = page\<lparr>content := content page @ spec_objectOps e vh ph obj\<rparr>"
  by (auto simp add: processObject_def drawTextObject_def drawImageObject_def embedImage_def
        spec_objectOps_def Let_def split: option.splits)

lemma savePDF_objects_fst:
  "fst (savePDF_objects e k vh ph objs (page, lg))
     = page\<lparr>content := content page @ concat (map (spec_objectOps e vh ph) objs)\<rparr>"
proof (induction objs arbitrary: page lg)
  case Nil
  show ?case by simp
next
  case (Cons obj objs)
  obtain p1 l1 where st: "processObject e k vh ph (page, lg) obj = (p1, l1)"
    by (cases "processObject e k vh ph (page, lg) obj")
  have p1: "p1 = page\<lparr>content := content page @ spec_objectOps e vh ph obj\<rparr>"
    using processObject_fst [of e k vh ph page lg obj] st by simp
  show ?case
    by (simp add: st Cons.IH p1)
qed

lemma processObject_ignored:
  "\<not> spec_drawable obj \<Longrightarrow> processObject e k vh ph st obj = st"
  by (cases st)
     (auto simp add: processObject_def drawTextObject_def drawImageObject_def spec_drawable_def
        split: option.splits if_splits)

lemma savePDF_objects_filter:
  "savePDF_objects e k vh ph objs st = savePDF_objects e k vh ph (filter spec_drawable objs) st"
  by (induction objs arbitrary: st) (simp_all add: processObject_ignored)

lemma savePDF_pages_dropIgnored:
  "savePDF_pages e entries (pages, lg)
     = savePDF_pages e (map (\<lambda>(pageNum, snap). (pageNum, dropIgnored snap)) entries) (pages, lg)"
proof (induction entries arbitrary: pages lg)
  case Nil
  show ?case by simp
next
  case (Cons entry entries)
  obtain k snap where entry: "entry = (k, snap)"
    by (cases entry)
  show ?case
    using Cons.IH savePDF_objects_filter
    by (simp add: entry dropIgnored_def Let_def split: option.splits prod.splits)
qed

lemma savePDF_pages_length:
  "savePDF_pages e entries (pages, lg) = Inr (pages', lg') \<Longrightarrow> length pages' = length pages"
proof (induction entries arbitrary: pages lg)
  case Nil
  then show ?case by simp
next
  case (Cons entry entries)
  obtain k snap where entry: "entry = (k, snap)"
    by (cases entry)
  from Cons.prems show ?case
    by (auto simp add: entry Let_def dest: Cons.IH split: option.splits prod.splits if_splits)
qed

lemma savePDF_pages_skip:
  assumes "parseInt k None = Some n" and "n < 1 \<or> int (length pages) < n"
  shows "savePDF_pages e ((k, snap) # rest) (pages, lg) = savePDF_pages e rest (pages, lg)"
  using assms by auto

lemma savePDF_pages_skip_middle:
  assumes "parseInt k None = Some n" and "n < 1 \<or> int (length pages) < n"
  shows "savePDF_pages e (before @ (k, snap) # rest) (pages, lg)
           = savePDF_pages e (before @ rest) (pages, lg)"
  using assms(2)
proof (induction before arbitrary: pages lg)
  case Nil
  then show ?case
    using assms(1) savePDF_pages_skip by simp
next
  case (Cons entry before)
  obtain k' snap' where entry: "entry = (k', snap')"
    by (cases entry)
  show ?case
    using Cons.prems
    by (auto simp add: entry Let_def Cons.IH split: option.splits prod.splits)
qed

text \<open>
  A key that does not read as a number at all is not skipped: the range test lets
  \<^verbatim>\<open>NaN\<close> through and the whole save fails.
\<close>

lemma savePDF_pages_NaN_key:
  "parseInt k None = None \<Longrightarrow> savePDF_pages e ((k, snap) # rest) (pages, lg) = Inl TypeError"
  by simp

lemma spec_pageOps_Cons:
  "spec_pageOps e vh ph n ((k, snap) # rest)
     = (if parseInt k None = Some n then spec_snapshotOps e vh ph snap else [])
       @ spec_pageOps e vh ph n rest"
  by (simp add: spec_pageOps_def)

section \<open>Coordinate transform\<close>

text \<open>
  C1. The claim fails on the code for a text object that has been scaled on the canvas.
  \<open>scaledText\<close> is 60 pixels high on the canvas (\<open>height = 30\<close>, \<open>scaleY = 2\<close>), so
  the transform should put it at \<open>y = 792 - (50 + 60) * (792 / 1188)\<close>;
  \<^verbatim>\<open>drawTextObject\<close> takes the attribute \<open>height\<close> as it is, draws exactly what it
  draws for the unscaled text box and puts it at \<open>y = 792 - (50 + 30) * (792 / 1188)\<close>.
  \<^verbatim>\<open>drawImageObject\<close> multiplies by \<open>scaleY\<close> and meets the formula for an image of
  the same geometry.
\<close>

theorem text_scale_factor_ignored:
  "drawTextObject acceptingEnv letterPage scaledText 1188 792 []
     = Inr (letterPage\<lparr>content :=
              [DrawText (TextArgs ''Hi'' (200 / 3) (2216 / 3) 12
                           (RGB (Some 0) (Some 0) (Some 0)))]\<rparr>,
            [TextDrawn (200 / 3) (2216 / 3)])
   \<and> drawTextObject acceptingEnv letterPage scaledText 1188 792 []
       = drawTextObject acceptingEnv letterPage letterText 1188 792 []
   \<and> t_y (textArgs ''Hi'' scaledText 1188 792) \<noteq> 792 - (50 + 30 * 2) * (792 / 1188)
   \<and> i_y (imageArgs png400x200 scaledImage 1188 792) = 792 - (50 + 30 * 2) * (792 / 1188)"
  by (simp add: drawTextObject_def textArgs_def imageArgs_def scaledText_def scaledImage_def
        letterText_def blankObj_def letterPage_def acceptingEnv_def png400x200_def num_or_def
        str_or_def hexToRgb_black)




text \<open>
  C9. Each optional attribute has its own fallback: without a font size the text is
  drawn at size \<open>18 * scale\<close>; without a fill colour it is drawn black; without
  \<open>scaleX\<close> (\<open>scaleY\<close>) the image is drawn with its width (height) multiplied by 1.
  The transform does not fail: whenever the text primitive accepts the arguments,
  \<^verbatim>\<open>drawTextObject\<close> returns normally and has drawn the text with them; whenever the
  image data can be fetched and embedded and the image primitive accepts the arguments,
  \<^verbatim>\<open>drawImageObject\<close> has drawn the image with them.
\<close>

theorem missing_attributes_default:
  assumes "vh \<noteq> 0"
  shows "(o_fontSize obj = None \<longrightarrow> t_size (textArgs text obj vh ph) = 18 * (ph / vh))
       \<and> (o_fill obj = None \<longrightarrow>
            t_color (textArgs text obj vh ph) = RGB (Some 0) (Some 0) (Some 0))
       \<and> (o_scaleX obj = None \<longrightarrow>
            i_width (imageArgs img obj vh ph)
              = num_or (o_width obj) (img_width img) * 1 * (ph / vh))
       \<and> (o_scaleY obj = None \<longrightarrow>
            i_height (imageArgs img obj vh ph)
              = num_or (o_height obj) (img_height img) * 1 * (ph / vh)
            \<and> i_y (imageArgs img obj vh ph)
              = ph - (num_or (o_top obj) 0 + num_or (o_height obj) (img_height img) * 1)
                     * (ph / vh))
       \<and> (o_text obj = Some text \<and> text \<noteq> [] \<and> drawText e (textArgs text obj vh ph) \<longrightarrow>
            drawTextObject e page obj vh ph lg
              = Inr (page\<lparr>content := content page @ [DrawText (textArgs text obj vh ph)]\<rparr>,
                     lg @ [TextDrawn (t_x (textArgs text obj vh ph))
                                     (t_y (textArgs text obj vh ph))]))
       \<and> (o_src obj = Some src \<and> src \<noteq> [] \<and> fetch e src = Some bytes
            \<and> (if sublist ''image/png'' src then embedPng e bytes else embedJpg e bytes)
                = Some img
            \<and> drawImage e (imageArgs img obj vh ph) \<longrightarrow>
            drawImageObject e page obj vh ph lg
              = (page\<lparr>content := content page @ [DrawImage (imageArgs img obj vh ph)]\<rparr>,
                 lg @ [ImageDrawn (i_x (imageArgs img obj vh ph))
                                  (i_y (imageArgs img obj vh ph))]))"
  using assms
  by (simp add: textArgs_def imageArgs_def num_or_None str_or_def hexToRgb_black
        drawTextObject_def drawImageObject_def embedImage_def Let_def)

theorem missing_attributes_default_witness:
  "(1188::real) \<noteq> 0
   \<and> o_fontSize redText = None \<and> o_fill redText = Some ''#ff0000''
   \<and> drawTextObject acceptingEnv letterPage redText 1188 792 []
       = Inr (letterPage\<lparr>content :=
                [DrawText (TextArgs ''Hi'' (200 / 3) (2216 / 3) 12
                             (RGB (Some 1) (Some 0) (Some 0)))]\<rparr>,
              [TextDrawn (200 / 3) (2216 / 3)])
   \<and> o_fill bigText = None \<and> o_fontSize bigText = Some 24
   \<and> drawTextObject acceptingEnv letterPage bigText 1188 792 []
       = Inr (letterPage\<lparr>content :=
                [DrawText (TextArgs ''Hi'' (200 / 3) (2216 / 3) 16
                             (RGB (Some 0) (Some 0) (Some 0)))]\<rparr>,
              [TextDrawn (200 / 3) (2216 / 3)])
   \<and> o_scaleX tallImage = None \<and> o_scaleY tallImage = Some (1 / 2)
   \<and> drawImageObject acceptingEnv letterPage tallImage 1188 792 []
       = (letterPage\<lparr>content :=
            [DrawImage (ImageArgs png400x200 (200 / 3) 692 (800 / 3) (200 / 3))]\<rparr>,
          [ImageDrawn (200 / 3) 692])
   \<and> o_scaleY wideImage = None \<and> o_scaleX wideImage = Some (1 / 2)
   \<and> drawImageObject acceptingEnv letterPage wideImage 1188 792 []
       = (letterPage\<lparr>content :=
            [DrawImage (ImageArgs png400x200 (200 / 3) (1876 / 3) (400 / 3) (400 / 3))]\<rparr>,
          [ImageDrawn (200 / 3) (1876 / 3)])"
proof -
  have p: "(1188::real) \<noteq> 0"
    by simp
  have red: "o_fontSize redText = None" "o_fill redText = Some ''#ff0000''"
    "o_text redText = Some ''Hi''" "o_left redText = Some 100" "o_top redText = Some 50"
    "o_height redText = Some 30"
    by (simp_all add: redText_def blankObj_def)
  have big: "o_fill bigText = None" "o_fontSize bigText = Some 24"
    "o_text bigText = Some ''Hi''" "o_left bigText = Some 100" "o_top bigText = Some 50"
    "o_height bigText = Some 30"
    by (simp_all add: bigText_def blankObj_def)
  have tall: "o_scaleX tallImage = None" "o_scaleY tallImage = Some (1 / 2)"
    "o_src tallImage = Some ''data:image/png;base64,AAAA''" "o_left tallImage = Some 100"
    "o_top tallImage = Some 50" "o_width tallImage = Some 400" "o_height tallImage = Some 200"
    by (simp_all add: tallImage_def halfScaledImage_def blankObj_def)
  have wide: "o_scaleY wideImage = None" "o_scaleX wideImage = Some (1 / 2)"
    "o_src wideImage = Some ''data:image/png;base64,AAAA''" "o_left wideImage = Some 100"
    "o_top wideImage = Some 50" "o_width wideImage = Some 400" "o_height wideImage = Some 200"
    by (simp_all add: wideImage_def halfScaledImage_def blankObj_def)
  have env: "drawText acceptingEnv = (\<lambda>args. True)" "drawImage acceptingEnv = (\<lambda>args. True)"
    "fetch acceptingEnv = (\<lambda>src. Some [])" "embedPng acceptingEnv = (\<lambda>bytes. Some png400x200)"
    "embedJpg acceptingEnv = (\<lambda>bytes. Some png400x200)"
    by (simp_all add: acceptingEnv_def)
  have red_args: "textArgs ''Hi'' redText 1188 792
                    = TextArgs ''Hi'' (200 / 3) (2216 / 3) 12 (RGB (Some 1) (Some 0) (Some 0))"
    by (simp add: textArgs_def red num_or_def str_or_def hexToRgb_def parseInt_def
          whiteSpace1_def whiteSpace2_def digitValue_def digitsValue_def)
  have big_args: "textArgs ''Hi'' bigText 1188 792
                    = TextArgs ''Hi'' (200 / 3) (2216 / 3) 16 (RGB (Some 0) (Some 0) (Some 0))"
    by (simp add: textArgs_def big num_or_def str_or_def hexToRgb_black)
  have tall_args: "imageArgs png400x200 tallImage 1188 792
                     = ImageArgs png400x200 (200 / 3) 692 (800 / 3) (200 / 3)"
    by (simp add: imageArgs_def tall num_or_def)
  have wide_args: "imageArgs png400x200 wideImage 1188 792
                     = ImageArgs png400x200 (200 / 3) (1876 / 3) (400 / 3) (400 / 3)"
    by (simp add: imageArgs_def wide num_or_def)
  note t1 = missing_attributes_default
              [OF p, of redText "''Hi''" 792 png400x200 acceptingEnv letterPage "[]"
                 "''data:image/png;base64,AAAA''" "[]"]
  note t2 = missing_attributes_default
              [OF p, of bigText "''Hi''" 792 png400x200 acceptingEnv letterPage "[]"
                 "''data:image/png;base64,AAAA''" "[]"]
  note t3 = missing_attributes_default
              [OF p, of tallImage "''Hi''" 792 png400x200 acceptingEnv letterPage "[]"
                 "''data:image/png;base64,AAAA''" "[]"]
  note t4 = missing_attributes_default
              [OF p, of wideImage "''Hi''" 792 png400x200 acceptingEnv letterPage "[]"
                 "''data:image/png;base64,AAAA''" "[]"]
  have r1: "drawTextObject acceptingEnv letterPage redText 1188 792 []
       = Inr (letterPage\<lparr>content :=
                [DrawText (TextArgs ''Hi'' (200 / 3) (2216 / 3) 12
                             (RGB (Some 1) (Some 0) (Some 0)))]\<rparr>,
              [TextDrawn (200 / 3) (2216 / 3)])"
    using t1 red by (simp add: env red_args letterPage_def)
  have r2: "drawTextObject acceptingEnv letterPage bigText 1188 792 []
       = Inr (letterPage\<lparr>content :=
                [DrawText (TextArgs ''Hi'' (200 / 3) (2216 / 3) 16
                             (RGB (Some 0) (Some 0) (Some 0)))]\<rparr>,
              [TextDrawn (200 / 3) (2216 / 3)])"
    using t2 big by (simp add: env big_args letterPage_def)
  have r3: "drawImageObject acceptingEnv letterPage tallImage 1188 792 []
       = (letterPage\<lparr>content :=
            [DrawImage (ImageArgs png400x200 (200 / 3) 692 (800 / 3) (200 / 3))]\<rparr>,
          [ImageDrawn (200 / 3) 692])"
    using t3 tall by (simp add: env tall_args letterPage_def)
  have r4: "drawImageObject acceptingEnv letterPage wideImage 1188 792 []
       = (letterPage\<lparr>content :=
            [DrawImage (ImageArgs png400x200 (200 / 3) (1876 / 3) (400 / 3) (400 / 3))]\<rparr>,
          [ImageDrawn (200 / 3) (1876 / 3)])"
    using t4 wide by (simp add: env wide_args letterPage_def)
  show ?thesis
    using p red(1,2) big(1,2) tall(1,2) wide(1,2) r1 r2 r3 r4 by simp
qed

section \<open>Undo/redo engine\<close>

text \<open>
  C2. The claim fails on the code as soon as the canvas library fires a mutation event
  while \<^verbatim>\<open>undo\<close> loads the snapshot it has popped: the handler
  \<^verbatim>\<open>saveUndoState\<close> runs for it and empties the redo stack, so the Redo that
  follows finds nothing to redo and changes nothing. The canvas then shows the popped
  snapshot and not what it showed before the Undo.
\<close>

theorem undo_then_redo_loses_canvas:
  assumes "undoStack s (currentPage s) = Some us" and "us \<noteq> []"
    and "fabricCanvas s = Some c" and "fires c (last us) \<noteq> []"
  shows "fst (undo fires s) = None
       \<and> fabricCanvas (snd (undo fires s)) = Some (last us)
       \<and> redoStack (snd (undo fires s)) (currentPage s) = Some []
       \<and> redo fires (snd (undo fires s)) = (None, snd (undo fires s))
       \<and> fabricCanvas (snd (redo fires (snd (undo fires s)))) = Some (last us)
       \<and> (last us \<noteq> c \<longrightarrow> fabricCanvas (snd (redo fires (snd (undo fires s)))) \<noteq> Some c)"
proof -
  let ?s3 = "s\<lparr>redoStack := (redoStack s)(currentPage s \<mapsto>
                               stackOf (redoStack s) (currentPage s) @ [c]),
               undoStack := (undoStack s)(currentPage s \<mapsto> butlast us)\<rparr>"
  let ?s4 = "loadFromJSON fires c (last us) ?s3"
  have u: "undo fires s = (None, ?s4)"
    by (rule undo_Some [OF assms(1-3)])
  have page: "currentPage ?s4 = currentPage s"
    by (simp add: loadFromJSON_def fireEvents_currentPage)
  have canvas: "fabricCanvas ?s4 = Some (last us)"
    by (simp add: loadFromJSON_def)
  have "redoStack (fireEvents (fires c (last us)) ?s3) (currentPage ?s3) = Some []"
    using assms(4) by (rule fireEvents_redoStack)
  then have redo_empty: "redoStack ?s4 (currentPage s) = Some []"
    by (simp add: loadFromJSON_def)
  have r: "redo fires ?s4 = (None, ?s4)"
    using redo_empty page by (simp add: redo_def Let_def)
  show ?thesis
    using u r canvas redo_empty by simp
qed

theorem undo_then_redo_loses_canvas_witness:
  "undoStack undoneState (currentPage undoneState) = Some [snapB]
   \<and> fabricCanvas undoneState = Some snapA
   \<and> (\<lambda>cur json. [json]) snapA (last [snapB]) \<noteq> []
   \<and> snapB \<noteq> snapA
   \<and> fabricCanvas (snd (undo (\<lambda>cur json. [json]) undoneState)) = Some snapB
   \<and> redo (\<lambda>cur json. [json]) (snd (undo (\<lambda>cur json. [json]) undoneState))
       = (None, snd (undo (\<lambda>cur json. [json]) undoneState))
   \<and> fabricCanvas (snd (redo (\<lambda>cur json. [json])
                          (snd (undo (\<lambda>cur json. [json]) undoneState)))) \<noteq> Some snapA"
proof -
  have a: "undoStack undoneState (currentPage undoneState) = Some [snapB]"
    by (simp add: undoneState_def)
  have b: "[snapB] \<noteq> []"
    by simp
  have c: "fabricCanvas undoneState = Some snapA"
    by (simp add: undoneState_def)
  have d: "(\<lambda>cur json. [json]) snapA (last [snapB]) \<noteq> []"
    by simp
  have e: "snapB \<noteq> snapA"
    by (simp add: snapA_def snapB_def)
  show ?thesis
    using undo_then_redo_loses_canvas [where fires = "\<lambda>cur json. [json]", OF a b c] a c d e
    by simp
qed

text \<open>
  C3. From a freshly loaded document, after any sequence of object events, undo
  clicks, redo clicks and page changes, and whatever events the canvas library fires
  while it loads a snapshot, no page's undo stack holds more than 50 entries.
  When \<^verbatim>\<open>saveUndoState\<close> pushes onto a stack of 50, the oldest entry (the head) is
  dropped and the others keep their order; below 50 the push only appends.
  \<^verbatim>\<open>redo\<close> pushes without a check, but the lengths of the two stacks of a page
  never add up to more than 50 (\<open>stack_sum_run\<close>), which bounds the undo stack.
\<close>

theorem undo_stack_bounded:
  "length (stackOf (undoStack (run fires es initialState)) p) \<le> 50
   \<and> (fabricCanvas s = Some c \<and> undoStack s (currentPage s) = Some us \<and> length us = 50
        \<longrightarrow> undoStack (snd (saveUndoState s)) (currentPage s) = Some (tl us @ [c]))
   \<and> (fabricCanvas s = Some c \<and> undoStack s (currentPage s) = Some us \<and> length us < 50
        \<longrightarrow> undoStack (snd (saveUndoState s)) (currentPage s) = Some (us @ [c]))"
proof -
  have "length (stackOf (undoStack (run fires es initialState)) p)
          + length (stackOf (redoStack (run fires es initialState)) p) \<le> 50"
    using stack_sum_initial by (intro stack_sum_run) blast
  then have "length (stackOf (undoStack (run fires es initialState)) p) \<le> 50"
    by simp
  moreover have "length us = 50 \<Longrightarrow> us \<noteq> []"
    by auto
  ultimately show ?thesis
    by (auto simp add: saveUndoState_def initStack_def stackOf_def Let_def)
qed

theorem undo_stack_bounded_witness:
  "length (stackOf (undoStack (run (\<lambda>cur json. [json])
                                 [PageShown 1 snapA, ObjectEvent snapB, UndoClick]
                                 initialState)) 1) \<le> 50
   \<and> undoStack fullState (currentPage fullState) = Some (snapB # replicate 49 snapA)
   \<and> undoStack (snd (saveUndoState fullState)) (currentPage fullState)
       = Some (replicate 49 snapA @ [snapC])
   \<and> undoStack (snd (saveUndoState editedState)) (currentPage editedState)
       = Some [snapB, snapC, snapC]"
  using undo_stack_bounded
          [of "\<lambda>cur json. [json]" "[PageShown 1 snapA, ObjectEvent snapB, UndoClick]" 1
              fullState snapC "snapB # replicate 49 snapA"]
    undo_stack_bounded [of "\<lambda>cur json. [json]" "[]" 1 editedState snapC "[snapB, snapC]"]
  by (simp add: fullState_def initialState_def editedState_def)

text \<open>
  C4. An object event (add, modify, remove) leaves the redo stack of the current page
  empty, in every state and so after any number of undos, at the end of any run; it
  does not change the current page.
\<close>

theorem fresh_mutation_clears_redo:
  "redoStack (step fires s (ObjectEvent c)) (currentPage s) = Some []
   \<and> currentPage (step fires s (ObjectEvent c)) = currentPage s
   \<and> redoStack (run fires (es @ [ObjectEvent c]) s)
        (currentPage (run fires (es @ [ObjectEvent c]) s)) = Some []
   \<and> (fabricCanvas s = Some c \<longrightarrow>
        fst (saveUndoState s) = None
        \<and> redoStack (snd (saveUndoState s)) (currentPage s) = Some [])"
  by (auto simp add: run_def saveUndoState_def initStack_def stackOf_def Let_def
        split: option.splits)

theorem fresh_mutation_clears_redo_witness:
  "redoStack undoneState 1 = Some [snapA]
   \<and> fabricCanvas undoneState = Some snapA
   \<and> redoStack (step (\<lambda>cur json. [json]) undoneState (ObjectEvent snapB)) 1 = Some []
   \<and> redoStack (snd (saveUndoState undoneState)) 1 = Some []"
proof -
  have u: "redoStack undoneState 1 = Some [snapA]"
    "fabricCanvas undoneState = Some snapA"
    "currentPage undoneState = 1"
    by (simp_all add: undoneState_def)
  show ?thesis
    using fresh_mutation_clears_redo [of "\<lambda>cur json. [json]" undoneState snapB "[]"]
      fresh_mutation_clears_redo [of "\<lambda>cur json. [json]" undoneState snapA "[]"] u
    by simp
qed

section \<open>Annotation store\<close>

text \<open>
  C6. When a canvas exists and durable storage refuses the write,
  \<^verbatim>\<open>saveCurrentPageAnnotations\<close> throws nothing, the in-memory store holds the new
  snapshot for the current page and is exactly the store a successful write leaves;
  durable storage keeps its old value and a warning is logged.
\<close>

theorem save_survives_storage_failure:
  assumes "fabricCanvas s = Some json"
    and "\<not> accepts ((annotations s)(currentPage s \<mapsto> json))"
  shows "fst (saveCurrentPageAnnotations accepts s) = None
       \<and> annotations (snd (saveCurrentPageAnnotations accepts s)) (currentPage s) = Some json
       \<and> annotations (snd (saveCurrentPageAnnotations accepts s))
           = (annotations s)(currentPage s \<mapsto> json)
       \<and> annotations (snd (saveCurrentPageAnnotations accepts s))
           = annotations (snd (saveCurrentPageAnnotations (\<lambda>store. True) s))
       \<and> localStorage (snd (saveCurrentPageAnnotations accepts s)) = localStorage s
       \<and> warnings (snd (saveCurrentPageAnnotations accepts s)) = warnings s @ [LibraryError]"
  using assms
  by (simp add: saveCurrentPageAnnotations_def localStorage_setItem_def Let_def)

theorem save_survives_storage_failure_witness:
  "fabricCanvas editedState = Some snapC
   \<and> fst (saveCurrentPageAnnotations (\<lambda>store. False) editedState) = None
   \<and> annotations (snd (saveCurrentPageAnnotations (\<lambda>store. False) editedState)) 1
       = Some snapC
   \<and> localStorage (snd (saveCurrentPageAnnotations (\<lambda>store. False) editedState)) = None"
proof -
  have a: "fabricCanvas editedState = Some snapC"
    by (simp add: editedState_def)
  have b: "\<not> (\<lambda>store. False) ((annotations editedState)(currentPage editedState \<mapsto> snapC))"
    by simp
  have c: "currentPage editedState = 1" "localStorage editedState = None"
    by (simp_all add: editedState_def)
  show ?thesis
    using save_survives_storage_failure [OF a b] a c by simp
qed

section \<open>Flattening\<close>

text \<open>
  C5. If every key of the store reads as a number and the rendering library serves
  every page of the document, the loop over the store returns normally whatever the
  drawing primitives do, keeps the number of pages, and leaves page \<open>i + 1\<close> with its
  earlier content followed by the contributions of the snapshots stored for it, in store
  order, each snapshot contributing its objects' operations in snapshot order; nothing
  else about a page changes. An object whose drawing fails contributes nothing
  (\<open>spec_objectOps\<close>) and leaves the contribution of every other object as it is.
\<close>

theorem flatten_order_and_isolation:
  assumes "\<forall>entry \<in> set entries. parseInt (fst entry) None \<noteq> None"
    and "\<forall>n. 1 \<le> n \<and> n \<le> int (length pages) \<longrightarrow> getViewportHeight e n = Some (vh n)"
  shows "\<exists>pages' lg'.
           savePDF_pages e entries (pages, lg) = Inr (pages', lg')
         \<and> length pages' = length pages
         \<and> (\<forall>i < length pages.
               pages' ! i =
                 (pages ! i)\<lparr>content := content (pages ! i)
                    @ spec_pageOps e (vh (int i + 1)) (pageHeight (pages ! i)) (int i + 1)
                        entries\<rparr>)"
  using assms
proof (induction entries arbitrary: pages lg)
  case Nil
  show ?case
    by (simp add: spec_pageOps_def)
next
  case (Cons entry entries)
  obtain k snap where entry: "entry = (k, snap)"
    by (cases entry)
  obtain n where n: "parseInt k None = Some n"
    using Cons.prems(1) entry by auto
  have rest: "\<forall>entry \<in> set entries. parseInt (fst entry) None \<noteq> None"
    using Cons.prems(1) by simp
  show ?case
  proof (cases "n - 1 < 0 \<or> int (length pages) \<le> n - 1")
    case True
    have eq: "savePDF_pages e ((k, snap) # entries) (pages, lg) = savePDF_pages e entries (pages, lg)"
      using True by (simp add: n)
    have other: "\<And>i. i < length pages \<Longrightarrow> n \<noteq> int i + 1"
      using True by auto
    from Cons.IH [OF rest Cons.prems(2), of lg] obtain pages' lg' where
      r: "savePDF_pages e entries (pages, lg) = Inr (pages', lg')"
        "length pages' = length pages"
        "\<forall>i < length pages. pages' ! i =
           (pages ! i)\<lparr>content := content (pages ! i)
              @ spec_pageOps e (vh (int i + 1)) (pageHeight (pages ! i)) (int i + 1) entries\<rparr>"
      by blast
    show ?thesis
      using r other by (simp add: entry eq spec_pageOps_Cons n del: savePDF_pages.simps)
  next
    case False
    define idx where "idx = nat (n - 1)"
    have idx: "idx < length pages" "int idx + 1 = n" "1 \<le> n" "n \<le> int (length pages)"
      using False by (auto simp add: idx_def)
    have vhn: "getViewportHeight e n = Some (vh n)"
      using Cons.prems(2) idx by blast
    show ?thesis
    proof (cases "objects snap")
      case None
      have eq: "savePDF_pages e ((k, snap) # entries) (pages, lg)
                  = savePDF_pages e entries (pages, lg)"
        using False by (simp add: n vhn None)
      from Cons.IH [OF rest Cons.prems(2), of lg] obtain pages' lg' where
        r: "savePDF_pages e entries (pages, lg) = Inr (pages', lg')"
          "length pages' = length pages"
          "\<forall>i < length pages. pages' ! i =
             (pages ! i)\<lparr>content := content (pages ! i)
                @ spec_pageOps e (vh (int i + 1)) (pageHeight (pages ! i)) (int i + 1) entries\<rparr>"
        by blast
      show ?thesis
        using r
        by (simp add: entry eq spec_pageOps_Cons spec_snapshotOps_def None
              del: savePDF_pages.simps)
    next
      case (Some objs)
      let ?page = "pages ! idx"
      obtain p1 l1 where
        so: "savePDF_objects e k (vh n) (pageHeight ?page) objs (?page, lg) = (p1, l1)"
        by (cases "savePDF_objects e k (vh n) (pageHeight ?page) objs (?page, lg)")
      have p1: "p1 = ?page\<lparr>content := content ?page
                  @ concat (map (spec_objectOps e (vh n) (pageHeight ?page)) objs)\<rparr>"
        using savePDF_objects_fst [of e k "vh n" "pageHeight ?page" objs ?page lg] so by simp
      have eq: "savePDF_pages e ((k, snap) # entries) (pages, lg)
                  = savePDF_pages e entries (pages[idx := p1], l1)"
        using False so unfolding idx_def by (simp add: n vhn Some Let_def)
      have vp: "\<forall>m. 1 \<le> m \<and> m \<le> int (length (pages[idx := p1]))
                  \<longrightarrow> getViewportHeight e m = Some (vh m)"
        using Cons.prems(2) by simp
      from Cons.IH [OF rest vp, of l1] obtain pages' lg' where
        r: "savePDF_pages e entries (pages[idx := p1], l1) = Inr (pages', lg')"
          "length pages' = length pages"
          "\<forall>i < length pages. pages' ! i =
             (pages[idx := p1] ! i)\<lparr>content := content (pages[idx := p1] ! i)
                @ spec_pageOps e (vh (int i + 1)) (pageHeight (pages[idx := p1] ! i))
                    (int i + 1) entries\<rparr>"
        by auto
      have "pages' ! i =
              (pages ! i)\<lparr>content := content (pages ! i)
                 @ spec_pageOps e (vh (int i + 1)) (pageHeight (pages ! i)) (int i + 1)
                     (entry # entries)\<rparr>"
        if i: "i < length pages" for i
      proof (cases "i = idx")
        case True
        then show ?thesis
          using r(3) i idx
          by (simp add: entry spec_pageOps_Cons n p1 spec_snapshotOps_def Some)
      next
        case False
        then have "n \<noteq> int i + 1"
          using idx by auto
        then show ?thesis
          using r(3) i False
          by (simp add: entry spec_pageOps_Cons n)
      qed
      then show ?thesis
        using r by (simp add: entry eq del: savePDF_pages.simps)
    qed
  qed
qed

theorem flatten_order_and_isolation_witness:
  "\<exists>pages' lg'.
      savePDF_pages pickyEnv [(''1'', pageOneSnap), (''2'', pageTwoSnap)]
        ([letterPage, letterPage], []) = Inr (pages', lg')
    \<and> length pages' = 2
    \<and> content (pages' ! 0)
        = [DrawText (TextArgs ''Hi'' (200 / 3) (2216 / 3) 12 (RGB (Some 0) (Some 0) (Some 0))),
           DrawImage (ImageArgs png400x200 (200 / 3) 692 (400 / 3) (200 / 3))]
    \<and> content (pages' ! 1)
        = [DrawImage (ImageArgs png400x200 (200 / 3) 692 (400 / 3) (200 / 3)),
           DrawText (TextArgs ''Hi'' (200 / 3) (2240 / 3) 12 (RGB (Some 0) (Some 0) (Some 0)))]"
proof -
  let ?store = "[(''1'', pageOneSnap), (''2'', pageTwoSnap)]"
  let ?pages = "[letterPage, letterPage]"
  have h1: "\<forall>entry \<in> set ?store. parseInt (fst entry) None \<noteq> None"
    by (simp add: parseInt_examples)
  have h2: "\<forall>n. 1 \<le> n \<and> n \<le> int (length ?pages)
              \<longrightarrow> getViewportHeight pickyEnv n = Some ((\<lambda>n. 1188) n)"
    by (simp add: pickyEnv_def)
  from flatten_order_and_isolation [OF h1 h2, of "[]"] obtain pages' lg' where
    r: "savePDF_pages pickyEnv ?store (?pages, []) = Inr (pages', lg')"
      "length pages' = length ?pages"
      "\<forall>i < length ?pages. pages' ! i =
         (?pages ! i)\<lparr>content := content (?pages ! i)
            @ spec_pageOps pickyEnv 1188 (pageHeight (?pages ! i)) (int i + 1) ?store\<rparr>"
    by blast
  have png: "sublist ''image/png'' ''data:image/png;base64,AAAA''"
    by (simp add: sublist_code)
  have ops: "spec_objectOps pickyEnv 1188 792 letterText
               = [DrawText (TextArgs ''Hi'' (200 / 3) (2216 / 3) 12
                              (RGB (Some 0) (Some 0) (Some 0)))]"
    "spec_objectOps pickyEnv 1188 792 flatText
               = [DrawText (TextArgs ''Hi'' (200 / 3) (2240 / 3) 12
                              (RGB (Some 0) (Some 0) (Some 0)))]"
    "spec_objectOps pickyEnv 1188 792 halfScaledImage
               = [DrawImage (ImageArgs png400x200 (200 / 3) 692 (400 / 3) (200 / 3))]"
    "spec_objectOps pickyEnv 1188 792 badText = []"
    "spec_objectOps pickyEnv 1188 792 unreadableImage = []"
    by (simp_all add: spec_objectOps_def textArgs_def imageArgs_def letterText_def flatText_def
          halfScaledImage_def badText_def unreadableImage_def blankObj_def pickyEnv_def png
          png400x200_def num_or_def str_or_def hexToRgb_black)
  have p0: "content (pages' ! 0)
        = [DrawText (TextArgs ''Hi'' (200 / 3) (2216 / 3) 12 (RGB (Some 0) (Some 0) (Some 0))),
           DrawImage (ImageArgs png400x200 (200 / 3) 692 (400 / 3) (200 / 3))]"
    using r(3) [rule_format, of 0]
    by (simp add: spec_pageOps_def spec_snapshotOps_def pageOneSnap_def pageTwoSnap_def
          parseInt_examples letterPage_def ops)
  have p1: "content (pages' ! 1)
        = [DrawImage (ImageArgs png400x200 (200 / 3) 692 (400 / 3) (200 / 3)),
           DrawText (TextArgs ''Hi'' (200 / 3) (2240 / 3) 12 (RGB (Some 0) (Some 0) (Some 0)))]"
    using r(3) [rule_format, of 1]
    by (simp add: spec_pageOps_def spec_snapshotOps_def pageOneSnap_def pageTwoSnap_def
          parseInt_examples letterPage_def ops)
  show ?thesis
    using r(1,2) p0 p1 by simp
qed

text \<open>
  C7. A store entry whose key reads as a number below 1 or above the number of pages is
  skipped: processed alone it returns the document and the log unchanged; anywhere in a
  store, the outcome (pages, log, or failure) is the one that the store without the
  entry gives; and no run changes the number of pages.
\<close>

theorem out_of_range_entry_skipped:
  assumes "parseInt k None = Some n" and "n < 1 \<or> int (length pages) < n"
  shows "savePDF_pages e [(k, snap)] (pages, lg) = Inr (pages, lg)
       \<and> savePDF_pages e (before @ (k, snap) # rest) (pages, lg)
           = savePDF_pages e (before @ rest) (pages, lg)
       \<and> (\<forall>pages' lg'.
             savePDF_pages e (before @ (k, snap) # rest) (pages, lg) = Inr (pages', lg')
             \<longrightarrow> length pages' = length pages)"
  using assms savePDF_pages_skip_middle [OF assms, of e before snap rest lg]
    savePDF_pages_length [of e "before @ (k, snap) # rest" pages lg]
  by auto

theorem out_of_range_entry_skipped_witness:
  "parseInt ''7'' None = Some 7
   \<and> savePDF_pages acceptingEnv [(''7'', snapC)] ([letterPage, letterPage], [])
       = Inr ([letterPage, letterPage], [])
   \<and> savePDF_pages acceptingEnv [(''1'', snapB), (''7'', snapC), (''2'', snapB)]
         ([letterPage, letterPage], [])
       = savePDF_pages acceptingEnv [(''1'', snapB), (''2'', snapB)]
           ([letterPage, letterPage], [])
   \<and> savePDF_pages acceptingEnv [(''0'', snapC)] ([letterPage, letterPage], [])
       = Inr ([letterPage, letterPage], [])"
proof -
  have a: "parseInt ''7'' None = Some 7" "parseInt ''0'' None = Some 0"
    by (simp_all add: parseInt_examples)
  have b: "(7::int) < 1 \<or> int (length [letterPage, letterPage]) < 7"
    "(0::int) < 1 \<or> int (length [letterPage, letterPage]) < 0"
    by simp_all
  show ?thesis
    using out_of_range_entry_skipped
            [OF a(1) b(1), of acceptingEnv snapC "[]" "[(''1'', snapB)]" "[(''2'', snapB)]"]
      out_of_range_entry_skipped [OF a(2) b(2), of acceptingEnv snapC "[]" "[]" "[]"] a
    by (simp del: savePDF_pages.simps)
qed

text \<open>
  C10. An object that is neither a text (\<open>textbox\<close>, \<open>text\<close>) with a non-empty
  text nor an \<open>image\<close> with a non-empty source leaves the page and the log exactly
  as they were: nothing is drawn and nothing is logged. Removing all such objects from
  a snapshot, or from every snapshot of the store, changes nothing in the result.
\<close>

theorem only_drawable_objects_drawn:
  "(\<not> spec_drawable obj \<longrightarrow> processObject e k vh ph st obj = st)
   \<and> savePDF_objects e k vh ph objs st
       = savePDF_objects e k vh ph (filter spec_drawable objs) st
   \<and> savePDF_pages e entries (pages, lg)
       = savePDF_pages e (map (\<lambda>(pageNum, snap). (pageNum, dropIgnored snap)) entries)
           (pages, lg)"
  using processObject_ignored [of obj e k vh ph st]
    savePDF_objects_filter [of e k vh ph objs st]
    savePDF_pages_dropIgnored [of e entries pages lg]
  by simp

theorem only_drawable_objects_drawn_witness:
  "\<not> spec_drawable (blankObj ''rect'')
   \<and> processObject acceptingEnv ''1'' 1188 792 (letterPage, []) (blankObj ''rect'')
       = (letterPage, [])
   \<and> \<not> spec_drawable (blankObj ''textbox'')
   \<and> processObject acceptingEnv ''1'' 1188 792 (letterPage, []) (blankObj ''textbox'')
       = (letterPage, [])
   \<and> \<not> spec_drawable (blankObj ''image'')
   \<and> processObject acceptingEnv ''1'' 1188 792 (letterPage, []) (blankObj ''image'')
       = (letterPage, [])"
proof -
  have a: "\<not> spec_drawable (blankObj ''rect'')" "\<not> spec_drawable (blankObj ''textbox'')"
    "\<not> spec_drawable (blankObj ''image'')"
    by (simp_all add: spec_drawable_def blankObj_def)
  show ?thesis
    using only_drawable_objects_drawn
            [of "blankObj ''rect''" acceptingEnv "''1''" 1188 792 "(letterPage, [])"]
      only_drawable_objects_drawn
            [of "blankObj ''textbox''" acceptingEnv "''1''" 1188 792 "(letterPage, [])"]
      only_drawable_objects_drawn
            [of "blankObj ''image''" acceptingEnv "''1''" 1188 792 "(letterPage, [])"] a
    by simp
qed


end
